theory Spec2Isabelle
  imports Main "HOL-Library.Multiset"
begin

section \<open>JavaScript values\<close>

text \<open>
  Request bodies are parsed JSON. A property that is missing reads as \<open>undefined\<close>,
  which is \<open>None\<close> here. Numbers are the integers of the safe range, where
  \<open>String(n)\<close> prints the decimal numeral.
\<close>

datatype json =
    JNull
  | JBool bool
  | JNum int
  | JStr string
  | JArr "json list"
  | JObj "(string \<times> json) list"

datatype error = TypeError | SqliteError | RangeError | StoreError

text \<open>\<open>v.k\<close> on a value that is neither null nor undefined. \<open>JSON.parse\<close> keeps the
  last of two equal keys. Only the keys of the payload are read by the handlers, never
  a built-in property.\<close>

fun js_get :: "json \<Rightarrow> string \<Rightarrow> json option" where
  "js_get (JObj kvs) k = map_of (rev kvs) k"
| "js_get v k = None"

text \<open>\<open>v?.k\<close>: undefined when \<open>v\<close> is null or undefined.\<close>

fun opt_get :: "json option \<Rightarrow> string \<Rightarrow> json option" where
  "opt_get None k = None"
| "opt_get (Some JNull) k = None"
| "opt_get (Some v) k = js_get v k"

fun truthy :: "json option \<Rightarrow> bool" where
  "truthy None = False"
| "truthy (Some JNull) = False"
| "truthy (Some (JBool b)) = b"
| "truthy (Some (JNum n)) = (n \<noteq> 0)"
| "truthy (Some (JStr s)) = (s \<noteq> [])"
| "truthy (Some (JArr xs)) = True"
| "truthy (Some (JObj kvs)) = True"

text \<open>\<open>a || b\<close>\<close>

definition js_or :: "json option \<Rightarrow> json option \<Rightarrow> json option" where
  "js_or a b = (if truthy a then a else b)"

fun string_of_nat :: "nat \<Rightarrow> string" where
  "string_of_nat n =
     (if n < 10 then [char_of (48 + n)]
      else string_of_nat (n div 10) @ [char_of (48 + n mod 10)])"

declare string_of_nat.simps [simp del]

definition string_of_int :: "int \<Rightarrow> string" where
  "string_of_int i = (if i < 0 then CHR ''-'' # string_of_nat (nat (- i)) else string_of_nat (nat i))"

text \<open>\<open>String(v)\<close>. An array prints its elements joined by commas, null ones as the
  empty string; an object prints as \<open>[object Object]\<close>.\<close>

fun js_String :: "json \<Rightarrow> string" and js_join :: "json list \<Rightarrow> string" where
  "js_String JNull = ''null''"
| "js_String (JBool b) = (if b then ''true'' else ''false'')"
| "js_String (JNum n) = string_of_int n"
| "js_String (JStr s) = s"
| "js_String (JArr xs) = js_join xs"
| "js_String (JObj kvs) = ''[object Object]''"
| "js_join [] = []"
| "js_join (x # xs) =
     (if x = JNull then [] else js_String x) @ (if xs = [] then [] else CHR '','' # js_join xs)"

text \<open>\<open>a || d\<close> where \<open>d\<close> is a literal of the handler: the result is never undefined.\<close>

fun or_else :: "json option \<Rightarrow> json \<Rightarrow> json" where
  "or_else None d = d"
| "or_else (Some v) d = (if truthy (Some v) then v else d)"

section \<open>Requests, the environment and the two tables\<close>

text \<open>
  Instants are milliseconds since the epoch. The \<open>ts\<close> column holds the text that
  \<open>toISOString\<close> prints for an instant; that text has a fixed width and is in UTC,
  so the text comparison of SQL orders two such values as their instants.
\<close>

text \<open>What \<open>Number\<close> makes of a parameter of the query string: \<open>Num i\<close> for one that
  spells the integer \<open>i\<close>, \<open>NaN\<close> for one that spells no number.\<close>

datatype jsnum = NaN | Num int

text \<open>The numbers of the handlers are doubles. An integer of magnitude up to \<open>2^53\<close> is a
  double; a larger one is rounded to the nearest integer of 53 significant bits, to the
  even one of two that are equally near.\<close>

function bit_length :: "int \<Rightarrow> nat" where
  "bit_length n = (if n \<le> 0 then 0 else Suc (bit_length (n div 2)))"
  by pat_completeness auto
termination
  by (relation "measure nat") auto

declare bit_length.simps [simp del]

definition round_double :: "int \<Rightarrow> int" where
  "round_double i =
     (if \<bar>i\<bar> \<le> 2 ^ 53 then i
      else
        let a = \<bar>i\<bar>;
            u = 2 ^ (bit_length a - 53);
            q = a div u;
            r = a mod u;
            m = (if u < 2 * r \<or> (2 * r = u \<and> odd q) then q + 1 else q) * u
        in if i < 0 then - m else m)"

text \<open>A number is bound to a statement as a double. \<open>LIMIT\<close> and \<open>OFFSET\<close> take it when
  it is an integer strictly between \<open>-2^63\<close> and \<open>2^63\<close>, and the statement fails with a
  datatype mismatch otherwise.\<close>

definition sql_int :: "int \<Rightarrow> bool" where
  "sql_int r = (- (2 ^ 63) < r \<and> r < 2 ^ 63)"

text \<open>A date filter of the query string, read as \<open>dayjs\<close> reads it: a date alone
  (its day number since 1970-01-01) is midnight of that day in local time, a date with a
  time and a zone is an instant, anything else is an invalid date.\<close>

datatype datestr = DateOnly int | DateTime int | InvalidDate

text \<open>The query string: \<open>None\<close> is a parameter that is absent. An empty \<open>start\<close> or
  \<open>end\<close> is falsy and counts as absent.\<close>

record query =
  q_start :: "datestr option"
  q_end :: "datestr option"
  q_page :: "jsnum option"
  q_pageSize :: "jsnum option"

record request =
  cookie_session_id :: "string option"
  x_forwarded_for :: "string option"
  remoteAddress :: "string option"
  body :: "json option"
  req_query :: query

text \<open>What a handler reads from outside: the clock, the local time zone (a fixed offset
  from UTC, in milliseconds), the random symbols \<open>nanoid\<close> draws for its k-th call of
  the request, and the writes of the request that the storage refuses.\<close>

record env =
  now :: int
  tz :: int
  entropy :: "nat \<Rightarrow> nat \<Rightarrow> char"
  write_fails :: "nat \<Rightarrow> bool"

text \<open>\<open>nanoid(size)\<close>, by its contract: \<open>size\<close> random symbols of a URL-safe
  alphabet, 21 when no size is given.\<close>

definition nanoid :: "env \<Rightarrow> nat \<Rightarrow> nat \<Rightarrow> string" where
  "nanoid e k n = map (entropy e k) [0..<n]"

record event_row =
  e_id :: string
  e_ts :: int
  e_session_id :: "string option"
  e_ip :: string
  e_page :: string
  e_type :: string
  e_payload :: json

record result_row =
  r_id :: string
  r_ts :: int
  r_session_id :: "string option"
  r_result_name :: "string option"
  r_score_json :: json

record db =
  events :: "event_row list"
  results :: "result_row list"

datatype 'a response = Ok 'a | Fail nat string

text \<open>\<open>stInsertEvent.run\<close>: the row is appended, unless its id is already a primary
  key of the table or the storage refuses the write; then it throws.\<close>

definition stInsertEvent_run :: "env \<Rightarrow> nat \<Rightarrow> db \<Rightarrow> event_row \<Rightarrow> error + db" where
  "stInsertEvent_run e w d row =
     (if write_fails e w \<or> e_id row \<in> set (map e_id (events d)) then Inl SqliteError
      else Inr (d\<lparr>events := events d @ [row]\<rparr>))"

definition stInsertResult_run :: "env \<Rightarrow> nat \<Rightarrow> db \<Rightarrow> result_row \<Rightarrow> error + db" where
  "stInsertResult_run e w d row =
     (if write_fails e w \<or> r_id row \<in> set (map r_id (results d)) then Inl SqliteError
      else Inr (d\<lparr>results := results d @ [row]\<rparr>))"

text \<open>\<open>db.transaction(fn)\<close>: when \<open>fn\<close> throws, the writes it made are rolled back
  and the exception is thrown again.\<close>

definition transaction :: "(db \<Rightarrow> error + db) \<Rightarrow> db \<Rightarrow> error option \<times> db" where
  "transaction f d = (case f d of Inl x \<Rightarrow> (Some x, d) | Inr d' \<Rightarrow> (None, d'))"

section \<open>The session middleware\<close>

text \<open>\<open>maxAge\<close> is in milliseconds.\<close>

record cookie =
  c_name :: string
  c_value :: string
  c_maxAge :: "int option"
  c_httpOnly :: bool

definition str_truthy :: "string option \<Rightarrow> bool" where
  "str_truthy s = (case s of None \<Rightarrow> False | Some t \<Rightarrow> t \<noteq> [])"

text \<open>server.js, lines 76-82. The result is the list of cookies set on the response and
  the number of \<open>nanoid\<close> calls made; \<open>next()\<close> hands the request on as it came.\<close>

definition session_middleware :: "env \<Rightarrow> request \<Rightarrow> cookie list \<times> nat" where
  "session_middleware e req =
     (if \<not> str_truthy (cookie_session_id req)
      then ([\<lparr>c_name = ''session_id'', c_value = nanoid e 0 21,
               c_maxAge = Some (10 * 24 * 3600 * 1000), c_httpOnly = True\<rparr>], 1)
      else ([], 0))"

text \<open>server.js, lines 697-706: the token is \<open>sess_<Date.now()>_<nanoid(6)>\<close> and the
  cookie has no maxAge.\<close>

definition session_middleware_v3 :: "env \<Rightarrow> request \<Rightarrow> cookie list \<times> nat" where
  "session_middleware_v3 e req =
     (if \<not> str_truthy (cookie_session_id req)
      then ([\<lparr>c_name = ''session_id'',
               c_value = ''sess_'' @ string_of_int (now e) @ ''_'' @ nanoid e 0 6,
               c_maxAge = None, c_httpOnly = False\<rparr>], 1)
      else ([], 0))"

text \<open>A request through the middleware and then a route: the route gets the request the
  middleware got, and the response carries the middleware's cookies.\<close>

definition serve ::
  "(env \<Rightarrow> nat \<Rightarrow> request \<Rightarrow> 's \<Rightarrow> 'a response \<times> 's) \<Rightarrow> env \<Rightarrow> request \<Rightarrow> 's
     \<Rightarrow> (cookie list \<times> 'a response) \<times> 's" where
  "serve route e req d =
     (case session_middleware e req of
        (cs, k) \<Rightarrow> (case route e k req d of (resp, d') \<Rightarrow> ((cs, resp), d')))"

section \<open>POST /api/events\<close>

definition client_ip :: "request \<Rightarrow> string" where
  "client_ip req =
     (case x_forwarded_for req of
        Some a \<Rightarrow> (if a \<noteq> [] then a
                   else (case remoteAddress req of Some b \<Rightarrow> b | None \<Rightarrow> []))
      | None \<Rightarrow> (case remoteAddress req of Some b \<Rightarrow> b | None \<Rightarrow> []))"

text \<open>\<open>Array.isArray(body.batch) ? body.batch : [body]\<close>, with \<open>body = req.body || {}\<close>.\<close>

definition batch_items :: "request \<Rightarrow> json list" where
  "batch_items req =
     (let b = or_else (body req) (JObj [])
      in case js_get b ''batch'' of Some (JArr xs) \<Rightarrow> xs | _ \<Rightarrow> [b])"

text \<open>server.js, lines 199-201 (and server-render.js, lines 133-135): page, type and
  payload of one item. The payload is the value that \<open>JSON.stringify\<close> writes.\<close>

definition event_fields :: "json \<Rightarrow> error + (string \<times> string \<times> json)" where
  "event_fields it =
     (if it = JNull then Inl TypeError
      else
        let props = js_get it ''properties'';
            page = or_else (js_or (js_get it ''page'') (opt_get props ''page'')) (JStr []);
            type = or_else (js_or (js_or (js_get it ''type'') (js_get it ''event''))
                                  (opt_get props ''event'')) (JStr ''custom'');
            payload = or_else (js_or (js_get it ''payload'') props) (JObj [])
        in Inr (js_String page, js_String type, payload))"

definition make_event :: "env \<Rightarrow> request \<Rightarrow> nat \<Rightarrow> string \<times> string \<times> json \<Rightarrow> event_row" where
  "make_event e req k f =
     (case f of (page, type, payload) \<Rightarrow>
        \<lparr>e_id = nanoid e k 21, e_ts = now e, e_session_id = cookie_session_id req,
         e_ip = client_ip req, e_page = page, e_type = type, e_payload = payload\<rparr>)"

text \<open>The body of \<open>insertMany\<close> (server.js, lines 197-213 and 589-601): \<open>k\<close> counts
  the calls of \<open>nanoid\<close>, \<open>w\<close> the writes; \<open>rd\<close> is how the variant reads an item.\<close>

fun insertMany ::
  "(json \<Rightarrow> error + (string \<times> string \<times> json)) \<Rightarrow> env \<Rightarrow> request \<Rightarrow> nat \<Rightarrow> nat \<Rightarrow> json list
     \<Rightarrow> db \<Rightarrow> error + db" where
  "insertMany rd e req k w [] d = Inr d"
| "insertMany rd e req k w (it # arr) d =
     (case rd it of
        Inl x \<Rightarrow> Inl x
      | Inr f \<Rightarrow>
          (case stInsertEvent_run e w d (make_event e req k f) of
             Inl x \<Rightarrow> Inl x
           | Inr d' \<Rightarrow> insertMany rd e req (Suc k) (Suc w) arr d'))"

text \<open>server.js, lines 187-221. \<open>Ok n\<close> is the response \<open>{ok: true, inserted: n}\<close>.\<close>

definition post_api_events :: "env \<Rightarrow> nat \<Rightarrow> request \<Rightarrow> db \<Rightarrow> nat response \<times> db" where
  "post_api_events e k req d =
     (let items = batch_items req
      in case transaction (insertMany event_fields e req k 0 items) d of
           (None, d') \<Rightarrow> (Ok (length items), d')
         | (Some x, d') \<Rightarrow> (Fail 500 ''Failed to insert events.'', d'))"

text \<open>server.js, lines 582-608, the variant that reads \<open>page\<close>, \<open>type\<close> and
  \<open>payload\<close> only.\<close>

definition event_fields_v2 :: "json \<Rightarrow> error + (string \<times> string \<times> json)" where
  "event_fields_v2 it =
     (if it = JNull then Inl TypeError
      else Inr (js_String (or_else (js_get it ''page'') (JStr [])),
                js_String (or_else (js_get it ''type'') (JStr ''custom'')),
                or_else (js_get it ''payload'') (JObj [])))"

definition post_api_events_v2 :: "env \<Rightarrow> nat \<Rightarrow> request \<Rightarrow> db \<Rightarrow> nat response \<times> db" where
  "post_api_events_v2 e k req d =
     (let items = batch_items req
      in case transaction (insertMany event_fields_v2 e req k 0 items) d of
           (None, d') \<Rightarrow> (Ok (length items), d')
         | (Some x, d') \<Rightarrow> (Fail 500 ''Failed to insert events.'', d'))"

text \<open>server-render.js, lines 147-153: \<open>supabase.from('events').insert([eventData])\<close>.
  The row is appended unless the store refuses it; the client does not throw, it returns
  the error.\<close>

definition supabase_insert :: "env \<Rightarrow> nat \<Rightarrow> db \<Rightarrow> event_row \<Rightarrow> error option \<times> db" where
  "supabase_insert e w d row =
     (if write_fails e w \<or> e_id row \<in> set (map e_id (events d)) then (Some StoreError, d)
      else (None, d\<lparr>events := events d @ [row]\<rparr>))"

text \<open>server-render.js, lines 123-161: one insert per item, outside any transaction; an
  error that an insert returns is logged, and the loop goes on.\<close>

fun render_insert_loop ::
  "env \<Rightarrow> request \<Rightarrow> nat \<Rightarrow> nat \<Rightarrow> json list \<Rightarrow> db \<Rightarrow> error option \<times> db" where
  "render_insert_loop e req k w [] d = (None, d)"
| "render_insert_loop e req k w (it # arr) d =
     (case event_fields it of
        Inl x \<Rightarrow> (Some x, d)
      | Inr f \<Rightarrow>
          (case supabase_insert e w d (make_event e req k f) of
             (err, d') \<Rightarrow> render_insert_loop e req (Suc k) (Suc w) arr d'))"

definition post_api_events_render :: "env \<Rightarrow> nat \<Rightarrow> request \<Rightarrow> db \<Rightarrow> nat response \<times> db" where
  "post_api_events_render e k req d =
     (let items = batch_items req
      in case render_insert_loop e req k 0 items d of
           (None, d') \<Rightarrow> (Ok (length items), d')
         | (Some x, d') \<Rightarrow> (Fail 500 ''Failed to insert events.'', d'))"

subsection \<open>The variant of server.js, lines 725-752\<close>

text \<open>This variant binds values of the item itself to the \<open>ts\<close> and \<open>session_id\<close>
  columns. A value bound to a column is the text of an instant or a value of the client;
  the statement binds strings, numbers and null, and throws a TypeError on anything
  else.\<close>

datatype sqlval = IsoText int | Bound json

record event_row_v3 =
  v3_id :: string
  v3_ts :: sqlval
  v3_session_id :: json
  v3_ip :: string
  v3_page :: string
  v3_type :: string
  v3_payload :: json

fun bindable :: "json \<Rightarrow> bool" where
  "bindable (JStr s) = True"
| "bindable (JNum n) = True"
| "bindable JNull = True"
| "bindable v = False"

fun sqlval_bindable :: "sqlval \<Rightarrow> bool" where
  "sqlval_bindable (IsoText t) = True"
| "sqlval_bindable (Bound v) = bindable v"

text \<open>\<open>const { batch = [] } = req.body || {}\<close>, then \<open>for (const e of batch)\<close>: an array
  gives its elements, a string its characters, and nothing else can be iterated.\<close>

definition batch_v3 :: "request \<Rightarrow> error + json list" where
  "batch_v3 req =
     (case js_get (or_else (body req) (JObj [])) ''batch'' of
        None \<Rightarrow> Inr []
      | Some (JArr xs) \<Rightarrow> Inr xs
      | Some (JStr s) \<Rightarrow> Inr (map (\<lambda>c. JStr [c]) s)
      | Some v \<Rightarrow> Inl TypeError)"

text \<open>\<open>e.ts || now\<close>, where \<open>now\<close> is \<open>new Date().toISOString()\<close>.\<close>

definition ts_or_now :: "env \<Rightarrow> json \<Rightarrow> sqlval" where
  "ts_or_now e ev =
     (case js_get ev ''ts'' of
        None \<Rightarrow> IsoText (now e)
      | Some v \<Rightarrow> (if truthy (Some v) then Bound v else IsoText (now e)))"

definition make_event_v3 :: "env \<Rightarrow> request \<Rightarrow> nat \<Rightarrow> json \<Rightarrow> error + event_row_v3" where
  "make_event_v3 e req k ev =
     (if ev = JNull then Inl TypeError
      else Inr
        \<lparr>v3_id = nanoid e k 21,
         v3_ts = ts_or_now e ev,
         v3_session_id =
           or_else (js_get ev ''sessionId'')
             (JStr (case cookie_session_id req of None \<Rightarrow> [] | Some c \<Rightarrow> c)),
         v3_ip = client_ip req,
         v3_page = js_String (or_else (js_get ev ''page'') (JStr [])),
         v3_type = js_String (or_else (js_get ev ''event'') (JStr ''custom'')),
         v3_payload = or_else (js_get ev ''properties'') (JObj [])\<rparr>)"

definition stInsertEvent_run_v3 ::
  "env \<Rightarrow> nat \<Rightarrow> event_row_v3 list \<Rightarrow> event_row_v3 \<Rightarrow> error + event_row_v3 list" where
  "stInsertEvent_run_v3 e w tbl row =
     (if \<not> (sqlval_bindable (v3_ts row) \<and> bindable (v3_session_id row)) then Inl TypeError
      else if write_fails e w \<or> v3_id row \<in> set (map v3_id tbl) then Inl SqliteError
      else Inr (tbl @ [row]))"

fun insert_v3 ::
  "env \<Rightarrow> request \<Rightarrow> nat \<Rightarrow> nat \<Rightarrow> json list \<Rightarrow> event_row_v3 list \<Rightarrow> error + event_row_v3 list" where
  "insert_v3 e req k w [] tbl = Inr tbl"
| "insert_v3 e req k w (ev # evs) tbl =
     (case make_event_v3 e req k ev of
        Inl x \<Rightarrow> Inl x
      | Inr row \<Rightarrow>
          (case stInsertEvent_run_v3 e w tbl row of
             Inl x \<Rightarrow> Inl x
           | Inr tbl' \<Rightarrow> insert_v3 e req (Suc k) (Suc w) evs tbl'))"

text \<open>\<open>Ok n\<close> is the response \<open>{ok: true, count: n}\<close>; on an exception the transaction
  leaves the table as it was.\<close>

definition post_api_events_v3 ::
  "env \<Rightarrow> nat \<Rightarrow> request \<Rightarrow> event_row_v3 list \<Rightarrow> nat response \<times> event_row_v3 list" where
  "post_api_events_v3 e k req tbl =
     (case batch_v3 req of
        Inl x \<Rightarrow> (Fail 500 ''Failed to insert events.'', tbl)
      | Inr evs \<Rightarrow>
          (case insert_v3 e req k 0 evs tbl of
             Inl x \<Rightarrow> (Fail 500 ''Failed to insert events.'', tbl)
           | Inr tbl' \<Rightarrow> (Ok (length evs), tbl')))"

section \<open>POST /api/results\<close>

text \<open>server.js, lines 224-243. A default of the destructuring stands in for a property
  that is undefined, not for one that is null.\<close>

definition post_api_results :: "env \<Rightarrow> nat \<Rightarrow> request \<Rightarrow> db \<Rightarrow> unit response \<times> db" where
  "post_api_results e k req d =
     (let b = or_else (body req) (JObj []);
          result_name = (case js_get b ''result_name'' of None \<Rightarrow> JStr [] | Some v \<Rightarrow> v);
          scores = (case js_get b ''scores'' of None \<Rightarrow> JObj [] | Some v \<Rightarrow> v);
          row = \<lparr>r_id = nanoid e k 21, r_ts = now e, r_session_id = cookie_session_id req,
                 r_result_name = Some (js_String result_name), r_score_json = scores\<rparr>
      in case stInsertResult_run e 0 d row of
           Inl x \<Rightarrow> (Fail 500 ''Failed to insert quiz result.'', d)
         | Inr d' \<Rightarrow> (Ok (), d'))"

section \<open>GET /api/events and GET /api/results\<close>

text \<open>\<open>Math.min(Number(pageSize) || 100, 500)\<close>; an absent \<open>pageSize\<close> is the number 100.
  Zero and NaN are falsy.\<close>

definition number_or :: "jsnum \<Rightarrow> int \<Rightarrow> int" where
  "number_or n d =
     (case n of NaN \<Rightarrow> d | Num i \<Rightarrow> (if round_double i = 0 then d else round_double i))"

definition page_limit :: "query \<Rightarrow> int" where
  "page_limit q =
     min (number_or (case q_pageSize q of None \<Rightarrow> Num 100 | Some v \<Rightarrow> v) 100) 500"

text \<open>\<open>(Number(page) - 1) * limit\<close>; an absent \<open>page\<close> is the number 1. Each step is
  rounded to a double.\<close>

definition page_offset :: "query \<Rightarrow> jsnum" where
  "page_offset q =
     (case (case q_page q of None \<Rightarrow> Num 1 | Some v \<Rightarrow> v) of
        NaN \<Rightarrow> NaN
      | Num p \<Rightarrow> Num (round_double (round_double (round_double p - 1) * page_limit q)))"

definition day_ms :: int where
  "day_ms = 24 * 3600 * 1000"

text \<open>\<open>dayjs(s)\<close>, \<open>.startOf('day')\<close> and \<open>.endOf('day')\<close> in the local time zone.\<close>

fun dayjs :: "env \<Rightarrow> datestr \<Rightarrow> int option" where
  "dayjs e (DateOnly n) = Some (n * day_ms - tz e)"
| "dayjs e (DateTime t) = Some t"
| "dayjs e InvalidDate = None"

definition startOf_day :: "env \<Rightarrow> int \<Rightarrow> int" where
  "startOf_day e t = t - (t + tz e) mod day_ms"

definition endOf_day :: "env \<Rightarrow> int \<Rightarrow> int" where
  "endOf_day e t = startOf_day e t + day_ms - 1"

text \<open>\<open>s ? dayjs(s).startOf('day').toISOString() : null\<close>, and the same with
  \<open>endOf\<close>; \<open>toISOString\<close> of an invalid date throws a RangeError.\<close>

definition start_param :: "env \<Rightarrow> datestr option \<Rightarrow> error + int option" where
  "start_param e s =
     (case s of
        None \<Rightarrow> Inr None
      | Some x \<Rightarrow> (case dayjs e x of None \<Rightarrow> Inl RangeError
                                     | Some t \<Rightarrow> Inr (Some (startOf_day e t))))"

definition end_param :: "env \<Rightarrow> datestr option \<Rightarrow> error + int option" where
  "end_param e s =
     (case s of
        None \<Rightarrow> Inr None
      | Some x \<Rightarrow> (case dayjs e x of None \<Rightarrow> Inl RangeError
                                     | Some t \<Rightarrow> Inr (Some (endOf_day e t))))"

text \<open>\<open>(@start IS NULL OR ts >= @start) AND (@end IS NULL OR ts <= @end)\<close>\<close>

definition in_range :: "int option \<Rightarrow> int option \<Rightarrow> int \<Rightarrow> bool" where
  "in_range s en t =
     ((case s of None \<Rightarrow> True | Some a \<Rightarrow> a \<le> t) \<and> (case en of None \<Rightarrow> True | Some b \<Rightarrow> t \<le> b))"

text \<open>\<open>ORDER BY ts DESC\<close>; rows of one instant, whose order SQL leaves open, stay in the
  order of the table.\<close>

definition order_ts_desc :: "('r \<Rightarrow> int) \<Rightarrow> 'r list \<Rightarrow> 'r list" where
  "order_ts_desc ts rows = sort_key (\<lambda>r. - ts r) rows"

text \<open>\<open>LIMIT l OFFSET o\<close> of SQLite: a negative limit is no limit, a negative offset
  is no offset.\<close>

definition limit_offset :: "int \<Rightarrow> int \<Rightarrow> 'r list \<Rightarrow> 'r list" where
  "limit_offset l off rows =
     (if l < 0 then drop (nat off) rows else take (nat l) (drop (nat off) rows))"

text \<open>\<open>stQueryEvents\<close> and \<open>stQueryResults\<close> (server.js, lines 94-108), over the
  column \<open>ts\<close> of either table.\<close>

definition stQuery :: "('r \<Rightarrow> int) \<Rightarrow> int option \<Rightarrow> int option \<Rightarrow> int \<Rightarrow> int \<Rightarrow> 'r list \<Rightarrow> 'r list" where
  "stQuery ts s en l off rows =
     limit_offset l off (order_ts_desc ts (filter (\<lambda>r. in_range s en (ts r)) rows))"

text \<open>The handler of server.js, lines 122-152 and 155-184, for either table. Each row goes
  out with its fields renamed. An offset that is NaN is bound as NULL, which the
  statement refuses, as it refuses a limit or an offset that is no 64-bit integer; every
  exception is answered with status 500.\<close>

definition get_api_rows :: "('r \<Rightarrow> int) \<Rightarrow> string \<Rightarrow> env \<Rightarrow> query \<Rightarrow> 'r list \<Rightarrow> 'r list response" where
  "get_api_rows ts msg e q rows =
     (case page_offset q of
        NaN \<Rightarrow> Fail 500 msg
      | Num off \<Rightarrow>
          (case start_param e (q_start q) of
             Inl x \<Rightarrow> Fail 500 msg
           | Inr s \<Rightarrow>
               (case end_param e (q_end q) of
                  Inl x \<Rightarrow> Fail 500 msg
                | Inr en \<Rightarrow>
                    (if sql_int (page_limit q) \<and> sql_int off
                     then Ok (stQuery ts s en (page_limit q) off rows)
                     else Fail 500 msg))))"

definition get_api_events :: "env \<Rightarrow> request \<Rightarrow> db \<Rightarrow> event_row list response" where
  "get_api_events e req d =
     get_api_rows e_ts ''Failed to fetch events from database.'' e (req_query req) (events d)"


subsection \<open>server-render.js, lines 54-120\<close>

text \<open>The filters go to the hosted database as the query string gave them. It reads a
  date alone as midnight of that day (in UTC, the zone of its sessions) and refuses an
  invalid date.\<close>

fun timestamptz :: "datestr \<Rightarrow> int option" where
  "timestamptz (DateOnly n) = Some (n * day_ms)"
| "timestamptz (DateTime t) = Some t"
| "timestamptz InvalidDate = None"

definition raw_param :: "datestr option \<Rightarrow> error + int option" where
  "raw_param s =
     (case s of
        None \<Rightarrow> Inr None
      | Some x \<Rightarrow> (case timestamptz x of None \<Rightarrow> Inl StoreError | Some t \<Rightarrow> Inr (Some t)))"

text \<open>\<open>.range(offset, offset + limit - 1)\<close>: the client asks the store for the rows from
  \<open>offset\<close> on, \<open>to - offset + 1\<close> of them, where \<open>to\<close> is the second argument; both
  are computed in doubles. The store refuses an offset that is NaN or below zero, a count
  below one, and either of them when it is no 64-bit integer.\<close>

definition range_count :: "int \<Rightarrow> int \<Rightarrow> int" where
  "range_count off l =
     (let to = round_double (round_double (off + l) - 1)
      in round_double (round_double (to - off) + 1))"

definition get_api_rows_render ::
  "('r \<Rightarrow> int) \<Rightarrow> string \<Rightarrow> query \<Rightarrow> 'r list \<Rightarrow> 'r list response" where
  "get_api_rows_render ts msg q rows =
     (case page_offset q of
        NaN \<Rightarrow> Fail 500 msg
      | Num off \<Rightarrow>
          (if off < 0 \<or> range_count off (page_limit q) < 1 \<or> \<not> sql_int off
              \<or> \<not> sql_int (range_count off (page_limit q))
           then Fail 500 msg
           else
             (case raw_param (q_start q) of
                Inl x \<Rightarrow> Fail 500 msg
              | Inr s \<Rightarrow>
                  (case raw_param (q_end q) of
                     Inl x \<Rightarrow> Fail 500 msg
                   | Inr en \<Rightarrow>
                       Ok (take (nat (range_count off (page_limit q)))
                             (drop (nat off)
                                (order_ts_desc ts (filter (\<lambda>r. in_range s en (ts r)) rows))))))))"

definition get_api_events_render :: "request \<Rightarrow> db \<Rightarrow> event_row list response" where
  "get_api_events_render req d =
     get_api_rows_render e_ts ''Failed to fetch events from database.'' (req_query req) (events d)"


section \<open>GET /api/dashboard and GET /api/realtime\<close>

text \<open>\<open>COUNT(DISTINCT c)\<close> counts the values of the column that are not NULL.\<close>

definition non_null :: "'a option list \<Rightarrow> 'a list" where
  "non_null xs = concat (map (\<lambda>x. case x of None \<Rightarrow> [] | Some v \<Rightarrow> [v]) xs)"

definition count_distinct :: "'a option list \<Rightarrow> nat" where
  "count_distinct xs = length (remdups (non_null xs))"

text \<open>\<open>SELECT k, COUNT(*) ... GROUP BY k\<close>: one row per value of \<open>k\<close>, NULL being one
  of the values.\<close>

definition group_count :: "'k list \<Rightarrow> ('k \<times> nat) list" where
  "group_count ks = map (\<lambda>k. (k, count_list ks k)) (remdups ks)"

text \<open>\<open>ORDER BY count DESC\<close>, and \<open>.sort((a, b) => b.count - a.count)\<close>, which is stable.\<close>

definition order_count_desc :: "('k \<times> nat) list \<Rightarrow> ('k \<times> nat) list" where
  "order_count_desc gs = sort_key (\<lambda>g. - int (snd g)) gs"

text \<open>The hour of day of an instant in UTC, which \<open>strftime('%H', ts)\<close> prints with two
  digits.\<close>

definition hour_of :: "int \<Rightarrow> nat" where
  "hour_of t = nat ((t mod day_ms) div (3600 * 1000))"

record dashboard =
  totalEvents :: nat
  totalUsers :: nat
  totalSessions :: nat
  todayEvents :: nat
  todayUsers :: nat
  topEvents :: "(string \<times> nat) list"
  pageViews :: "(string \<times> nat) list"
  quizResults :: "(string option \<times> nat) list"
  hourlyEvents :: "(nat \<times> nat) list"

text \<open>server.js, lines 246-327. The queries cannot throw on a table that holds rows of
  the schema, so the handler answers \<open>Ok\<close>.\<close>

definition get_api_dashboard :: "env \<Rightarrow> db \<Rightarrow> dashboard response" where
  "get_api_dashboard e d =
     (let today = startOf_day e (now e);
          since = filter (\<lambda>r. today \<le> e_ts r) (events d)
      in Ok
        \<lparr>totalEvents = length (events d),
         totalUsers = count_distinct (map e_session_id (events d)),
         totalSessions = count_distinct (map e_session_id (events d)),
         todayEvents = length since,
         todayUsers = count_distinct (map e_session_id since),
         topEvents = take 6 (order_count_desc (group_count (map e_type (events d)))),
         pageViews =
           take 10 (order_count_desc
             (group_count (map e_page (filter (\<lambda>r. e_type r = ''page_view'') (events d))))),
         quizResults = order_count_desc (group_count (map r_result_name (results d))),
         hourlyEvents = sort_key fst (group_count (map (\<lambda>r. hour_of (e_ts r)) since))\<rparr>)"

text \<open>server-render.js, lines 194-263. The counts are kept in an object, one key per
  value in the order the values first come: \<open>counts[k] = (counts[k] || 0) + 1\<close>.\<close>

fun bump :: "'k \<Rightarrow> ('k \<times> nat) list \<Rightarrow> ('k \<times> nat) list" where
  "bump k [] = [(k, 1)]"
| "bump k (g # gs) = (if fst g = k then (k, snd g + 1) # gs else g # bump k gs)"

definition tally :: "'k list \<Rightarrow> ('k \<times> nat) list" where
  "tally ks = foldl (\<lambda>counts k. bump k counts) [] ks"

definition get_api_dashboard_render :: "env \<Rightarrow> db \<Rightarrow> dashboard response" where
  "get_api_dashboard_render e d =
     (let today = startOf_day e (now e);
          uniqueUsers = length (remdups (non_null (map e_session_id (events d))))
      in Ok
        \<lparr>totalEvents = length (events d),
         totalUsers = uniqueUsers,
         totalSessions = uniqueUsers,
         todayEvents = length (filter (\<lambda>r. today \<le> e_ts r) (events d)),
         todayUsers = uniqueUsers,
         topEvents = take 6 (order_count_desc (tally (map e_type (events d)))),
         pageViews = [],
         quizResults =
           map (\<lambda>g. (Some (fst g), snd g))
             (order_count_desc (tally (non_null (map r_result_name (results d))))),
         hourlyEvents = []\<rparr>)"

text \<open>The first server of src/unnamed/part_001, lines 79-108, over the columns of its
  events table that the queries read. \<open>today\<close> is the local date, and the bound of the
  queries is the text \<open><today>T00:00:00Z\<close>. The text of an instant within the first
  second of that day, \<open><today>T00:00:00.123Z\<close>, is below the bound, so the bound is one
  second after midnight.\<close>

definition get_api_dashboard_tracker :: "env \<Rightarrow> db \<Rightarrow> dashboard response" where
  "get_api_dashboard_tracker e d =
     (let today = ((now e + tz e) div day_ms) * day_ms + 1000;
          since = filter (\<lambda>r. today \<le> e_ts r) (events d);
          sessions = count_distinct (map e_session_id (events d))
      in Ok
        \<lparr>totalEvents = length (events d),
         totalUsers = sessions,
         totalSessions = sessions,
         todayEvents = length since,
         todayUsers = count_distinct (map e_session_id since),
         topEvents = take 6 (order_count_desc (group_count (map e_type (events d)))),
         pageViews = take 6 (order_count_desc (group_count (map e_page (events d)))),
         quizResults = take 6 (order_count_desc (group_count (map r_result_name (results d)))),
         hourlyEvents = sort_key fst (group_count (map (\<lambda>r. hour_of (e_ts r)) since))\<rparr>)"




subsection \<open>The first server of src/unnamed/part_001, lines 111-123\<close>









section \<open>The normalisation of an item, in the spec's words\<close>

text \<open>The spec's words (sections 4.2 and 9): each field of an event is resolved from a
  list of places, in the order of their precedence, and has a default. A place counts
  when it holds a value that is truthy.\<close>

definition resolve :: "json option list \<Rightarrow> json \<Rightarrow> json" where
  "resolve places dflt = (case filter truthy places of Some v # rest \<Rightarrow> v | _ \<Rightarrow> dflt)"

text \<open>The page from the explicit \<open>page\<close> or the embedded \<open>properties.page\<close>, else the
  empty string; the type from \<open>type\<close>, \<open>event\<close> or \<open>properties.event\<close>, else
  \<open>custom\<close>; the payload from \<open>payload\<close> or \<open>properties\<close>, else the empty mapping.\<close>

definition spec_event_fields :: "json \<Rightarrow> string \<times> string \<times> json" where
  "spec_event_fields it =
     (js_String (resolve [js_get it ''page'', opt_get (js_get it ''properties'') ''page''] (JStr [])),
      js_String (resolve [js_get it ''type'', js_get it ''event'',
                          opt_get (js_get it ''properties'') ''event''] (JStr ''custom'')),
      resolve [js_get it ''payload'', js_get it ''properties''] (JObj []))"

section \<open>Concrete requests and tables\<close>

definition no_query :: query where
  "no_query = \<lparr>q_start = None, q_end = None, q_page = None, q_pageSize = None\<rparr>"

definition env_ok :: env where
  "env_ok = \<lparr>now = 1000, tz = 0, entropy = (\<lambda>k i. char_of (97 + k)), write_fails = (\<lambda>w. False)\<rparr>"

definition env_second_write_fails :: env where
  "env_second_write_fails = env_ok\<lparr>write_fails := (\<lambda>w. w = 1)\<rparr>"

text \<open>The batch of the spec's scenario 7, sent with a session cookie.\<close>

definition req_two_events :: request where
  "req_two_events =
     \<lparr>cookie_session_id = Some ''tok'', x_forwarded_for = None, remoteAddress = Some ''10.0.0.1'',
      body = Some (JObj [(''batch'',
               JArr [JObj [(''event'', JStr ''page_view''), (''page'', JStr ''/quiz'')],
                     JObj [(''event'', JStr ''option_select''), (''page'', JStr ''/quiz'')]])]),
      req_query = no_query\<rparr>"

definition db_empty :: db where
  "db_empty = \<lparr>events = [], results = []\<rparr>"

text \<open>A batch of two items whose second is \<open>null\<close>.\<close>

definition req_null_item :: request where
  "req_null_item =
     req_two_events\<lparr>body := Some (JObj [(''batch'',
        JArr [JObj [(''event'', JStr ''page_view''), (''page'', JStr ''/quiz'')], JNull])])\<rparr>"

definition get_req :: "query \<Rightarrow> request" where
  "get_req q = \<lparr>cookie_session_id = Some ''tok'', x_forwarded_for = None, remoteAddress = None,
                body = None, req_query = q\<rparr>"

definition row_at :: "string \<Rightarrow> int \<Rightarrow> event_row" where
  "row_at i t = \<lparr>e_id = i, e_ts = t, e_session_id = Some ''tok'', e_ip = ''10.0.0.1'',
                 e_page = ''/quiz'', e_type = ''page_view'', e_payload = JObj []\<rparr>"

definition db_one :: db where
  "db_one = \<lparr>events = [row_at ''a'' 500], results = []\<rparr>"



text \<open>One event at noon of day 1 (UTC), and a query for the events up to day 1.\<close>

definition db_noon :: db where
  "db_noon = \<lparr>events = [row_at ''a'' (1 * day_ms + 12 * 3600 * 1000)], results = []\<rparr>"

definition req_end_day1 :: request where
  "req_end_day1 = get_req (no_query\<lparr>q_end := Some (DateOnly 1)\<rparr>)"

text \<open>The same request from a visitor without a cookie, and with an empty one
  (\<open>Cookie: session_id=\<close>).\<close>

definition req_first_visit :: request where
  "req_first_visit = req_two_events\<lparr>cookie_session_id := None\<rparr>"

definition req_empty_cookie :: request where
  "req_empty_cookie = req_two_events\<lparr>cookie_session_id := Some []\<rparr>"

text \<open>A batch of one event that carries a timestamp of its own.\<close>

definition req_client_ts :: request where
  "req_client_ts =
     req_two_events\<lparr>body := Some (JObj [(''batch'',
        JArr [JObj [(''event'', JStr ''page_view''), (''ts'', JStr ''1999-01-01T00:00:00.000Z'')]])])\<rparr>"

text \<open>A single event, not in a batch, whose page and type are inside \<open>properties\<close>.\<close>

definition req_embedded :: request where
  "req_embedded =
     req_two_events\<lparr>body := Some (JObj [(''properties'',
        JObj [(''page'', JStr ''/result''), (''event'', JStr ''quiz_complete'')])])\<rparr>"

text \<open>Three events: one exactly five minutes before the clock, one a millisecond older,
  one newer and without a session.\<close>

definition env_later :: env where
  "env_later = env_ok\<lparr>now := 1000000\<rparr>"

definition db_boundary :: db where
  "db_boundary =
     \<lparr>events = [row_at ''a'' 700000, row_at ''b'' 699999,
                (row_at ''c'' 900000)\<lparr>e_session_id := None\<rparr>],
      results = []\<rparr>"






text \<open>The result of the spec's scenario 8, posted by a visitor without a cookie.\<close>

definition req_first_result :: request where
  "req_first_result =
     req_first_visit\<lparr>body := Some (JObj [(''result_name'', JStr ''INTJ''),
        (''scores'', JObj [(''mind'', JNum 80), (''energy'', JNum 20)])])\<rparr>"

section \<open>The batch write\<close>

lemma insertMany_rows:
  "insertMany rd e req k w items d = Inr d' \<Longrightarrow>
     \<exists>rows. events d' = events d @ rows \<and> length rows = length items \<and> results d' = results d"
proof (induction items arbitrary: k w d)
  case Nil
  then show ?case by simp
next
  case (Cons it arr)
  from Cons.prems obtain f d1 where
    r: "stInsertEvent_run e w d (make_event e req k f) = Inr d1" and
    rest: "insertMany rd e req (Suc k) (Suc w) arr d1 = Inr d'"
    by (auto split: sum.splits)
  from r have d1: "events d1 = events d @ [make_event e req k f]" "results d1 = results d"
    by (auto simp: stInsertEvent_run_def split: if_splits)
  from Cons.IH [OF rest] obtain rows where
    "events d' = events d1 @ rows" "length rows = length arr" "results d' = results d1"
    by blast
  with d1 show ?case by simp
qed

lemma insertMany_refused:
  "i < length items \<Longrightarrow> write_fails e (w + i) \<Longrightarrow> \<exists>x. insertMany rd e req k w items d = Inl x"
proof (induction items arbitrary: i k w d)
  case Nil
  then show ?case by simp
next
  case (Cons it arr)
  show ?case
  proof (cases i)
    case 0
    with Cons.prems show ?thesis
      by (auto simp: stInsertEvent_run_def split: sum.splits)
  next
    case (Suc j)
    with Cons.prems have "j < length arr" "write_fails e (Suc w + j)" by simp_all
    from Cons.IH [OF this] show ?thesis
      by (auto split: sum.splits)
  qed
qed

text \<open>Under the transaction of server.js the batch is written whole or not at all, and a
  refused write is answered with the failure.\<close>

lemma post_api_events_all_or_nothing:
  "post_api_events e k req d = (resp, d') \<Longrightarrow>
     (resp = Ok (length (batch_items req)) \<and>
        (\<exists>rows. events d' = events d @ rows \<and> length rows = length (batch_items req)) \<and>
        results d' = results d)
     \<or> (resp = Fail 500 ''Failed to insert events.'' \<and> d' = d)"
  by (auto simp: post_api_events_def transaction_def Let_def split: sum.splits dest: insertMany_rows)

lemma post_api_events_refused:
  "i < length (batch_items req) \<Longrightarrow> write_fails e i \<Longrightarrow>
     post_api_events e k req d = (Fail 500 ''Failed to insert events.'', d)"
  using insertMany_refused [of i "batch_items req" e 0 event_fields req k d]
  by (auto simp: post_api_events_def transaction_def Let_def split: sum.splits)

text \<open>
  Claim C1: a batch of N events is written whole or not at all, and a failed insert is
  answered with a failure. The handler of server-render.js does not keep it. For the
  batch of two items whose second is \<open>null\<close> it answers with the failure and leaves the
  first row in the table; for the batch of two events whose second insert the store
  refuses it answers \<open>{ok: true, inserted: 2}\<close> and leaves one row in the table. The
  handler of server.js answers both requests with the failure and leaves the table
  empty.
\<close>

theorem render_batch_partly_written:
  "length (batch_items req_null_item) = 2 \<and>
   fst (post_api_events_render env_ok 0 req_null_item db_empty) =
     Fail 500 ''Failed to insert events.'' \<and>
   length (events (snd (post_api_events_render env_ok 0 req_null_item db_empty))) = 1 \<and>
   post_api_events env_ok 0 req_null_item db_empty =
     (Fail 500 ''Failed to insert events.'', db_empty) \<and>
   length (batch_items req_two_events) = 2 \<and>
   fst (post_api_events_render env_second_write_fails 0 req_two_events db_empty) = Ok 2 \<and>
   length (events (snd (post_api_events_render env_second_write_fails 0 req_two_events db_empty))) = 1 \<and>
   post_api_events env_second_write_fails 0 req_two_events db_empty =
     (Fail 500 ''Failed to insert events.'', db_empty)"
  by code_simp

section \<open>Paging\<close>

lemma round_double_exact: "\<bar>i\<bar> \<le> 2 ^ 53 \<Longrightarrow> round_double i = i"
  by (simp add: round_double_def)














text \<open>A page number that is no 64-bit integer is answered with status 500, and so is an
  invalid date.\<close>

lemma get_api_events_page_beyond_int64:
  "get_api_events env_ok
     (get_req (no_query\<lparr>q_page := Some (Num (2 ^ 63)), q_pageSize := Some (Num 1)\<rparr>)) db_one =
   Fail 500 ''Failed to fetch events from database.''"
  by code_simp

lemma get_api_rows_invalid_date:
  "q_start q = Some InvalidDate \<or> q_end q = Some InvalidDate \<Longrightarrow>
     get_api_rows ts msg e q rows = Fail 500 msg \<and> get_api_rows_render ts msg q rows = Fail 500 msg"
  by (auto simp: get_api_rows_def get_api_rows_render_def start_param_def end_param_def
      raw_param_def split: jsnum.splits sum.splits option.splits)




section \<open>Date filters\<close>

text \<open>In server.js a date alone stands for its whole local day: the rows that pass
  \<open>start=a\<close> and \<open>end=b\<close> are those whose local calendar day is from \<open>a\<close> to \<open>b\<close>.\<close>

lemma start_param_date_only:
  "start_param e (Some (DateOnly n)) = Inr (Some (n * day_ms - tz e))"
  by (simp add: start_param_def startOf_day_def)

lemma end_param_date_only:
  "end_param e (Some (DateOnly n)) = Inr (Some ((n + 1) * day_ms - tz e - 1))"
  by (simp add: end_param_def endOf_day_def startOf_day_def algebra_simps)

lemma local_day_from: "(n * day_ms - z \<le> t) = (n \<le> (t + z) div day_ms)"
  by (simp add: day_ms_def) arith

lemma local_day_to: "(t \<le> (n + 1) * day_ms - z - 1) = ((t + z) div day_ms \<le> n)"
  by (simp add: day_ms_def) arith

lemma whole_days_in_range:
  assumes "start_param e (Some (DateOnly a)) = Inr s" and "end_param e (Some (DateOnly b)) = Inr en"
  shows "in_range s en t = (a \<le> (t + tz e) div day_ms \<and> (t + tz e) div day_ms \<le> b)"
proof -
  from assms have s: "s = Some (a * day_ms - tz e)" and en: "en = Some ((b + 1) * day_ms - tz e - 1)"
    by (simp_all add: start_param_date_only end_param_date_only)
  show ?thesis
    unfolding s en in_range_def option.case local_day_from local_day_to ..
qed

lemma get_api_events_whole_days:
  assumes "q_start (req_query req) = Some (DateOnly a)" and "q_end (req_query req) = Some (DateOnly b)"
    and "q_page (req_query req) = None" and "q_pageSize (req_query req) = None"
  shows "get_api_events e req d =
           Ok (take 100 (order_ts_desc e_ts
                 (filter (\<lambda>r. a \<le> (e_ts r + tz e) div day_ms \<and> (e_ts r + tz e) div day_ms \<le> b)
                    (events d))))"
proof -
  have "in_range (Some (a * day_ms - tz e)) (Some ((b + 1) * day_ms - tz e - 1)) t =
      (a \<le> (t + tz e) div day_ms \<and> (t + tz e) div day_ms \<le> b)" for t
    using whole_days_in_range [OF start_param_date_only end_param_date_only] .
  then show ?thesis
    by (simp add: get_api_events_def get_api_rows_def assms page_offset_def page_limit_def
        number_or_def round_double_exact sql_int_def start_param_date_only end_param_date_only
        stQuery_def limit_offset_def)
qed

text \<open>
  Claim C3: with date-only filters, \<open>start=D\<close> keeps every row from local midnight of D
  on and \<open>end=D\<close> every row up to the last instant of D. The handlers of server.js keep
  it (\<open>get_api_events_whole_days\<close>). The handler of server-render.js hands the date to
  the store as it came, which reads it as midnight: asked for the events up to day 1, it
  returns nothing for a table whose one event is at noon of day 1, and server.js returns
  that event.
\<close>

theorem render_end_date_drops_the_day:
  "get_api_events_render req_end_day1 db_noon = Ok [] \<and>
   get_api_events env_ok req_end_day1 db_noon = Ok (events db_noon) \<and>
   map (\<lambda>r. (e_ts r + tz env_ok) div day_ms) (events db_noon) = [1]"
  by code_simp

section \<open>The session cookie\<close>

lemma length_nanoid: "length (nanoid e k n) = n"
  by (simp add: nanoid_def)

lemma nanoid_not_empty: "0 < n \<Longrightarrow> nanoid e k n \<noteq> []"
  using length_nanoid [of e k n] by auto

text \<open>
  Claim C4, as stated: a request without a session_id cookie gets exactly one new,
  non-empty session_id cookie with a max-age of 10 days, and a request that presents a
  session_id cookie never gets a replacement. It fails for a request that presents an
  empty session_id cookie, which the middleware of server.js replaces, and for the
  middleware of server.js, lines 697-706, whose cookie has no max-age.
\<close>

theorem session_cookie_counterexample:
  "cookie_session_id req_empty_cookie = Some [] \<and>
   map c_name (fst (session_middleware env_ok req_empty_cookie)) = [''session_id''] \<and>
   cookie_session_id req_first_visit = None \<and>
   map c_maxAge (fst (session_middleware_v3 env_ok req_first_visit)) = [None]"
  by (simp add: req_empty_cookie_def req_first_visit_def req_two_events_def
      session_middleware_def session_middleware_v3_def str_truthy_def)

text \<open>
  Claim C4, amended: if the request carries no session_id cookie, or an empty one, the
  response sets exactly one newly minted, non-empty cookie named session_id, with a
  max-age of 10 days in the middleware of server.js, lines 76-82, and with no max-age in
  the variant of lines 697-706; if the request presents a non-empty session_id cookie,
  no cookie is set. In both cases the route is given the request as it came, so a token
  that was presented passes through unchanged.
\<close>

theorem session_cookie_only_when_missing:
  "(\<not> str_truthy (cookie_session_id req) \<longrightarrow>
      (\<exists>c. fst (session_middleware e req) = [c] \<and> c_name c = ''session_id'' \<and>
           c_value c = nanoid e 0 21 \<and> length (c_value c) = 21 \<and> c_value c \<noteq> [] \<and>
           c_maxAge c = Some (10 * day_ms)) \<and>
      (\<exists>c. fst (session_middleware_v3 e req) = [c] \<and> c_name c = ''session_id'' \<and>
           c_value c \<noteq> [] \<and> c_maxAge c = None)) \<and>
   (str_truthy (cookie_session_id req) \<longrightarrow>
      fst (session_middleware e req) = [] \<and> fst (session_middleware_v3 e req) = []) \<and>
   (str_truthy (cookie_session_id req) = (\<exists>t. cookie_session_id req = Some t \<and> t \<noteq> [])) \<and>
   serve route e req d =
     ((fst (session_middleware e req), fst (route e (snd (session_middleware e req)) req d)),
      snd (route e (snd (session_middleware e req)) req d))"
proof -
  have age: "10 * day_ms = 10 * 24 * 3600 * 1000" by (simp add: day_ms_def)
  have mint: "\<not> str_truthy (cookie_session_id req) \<longrightarrow>
      (\<exists>c. fst (session_middleware e req) = [c] \<and> c_name c = ''session_id'' \<and>
           c_value c = nanoid e 0 21 \<and> length (c_value c) = 21 \<and> c_value c \<noteq> [] \<and>
           c_maxAge c = Some (10 * day_ms))"
    unfolding age by (simp add: session_middleware_def length_nanoid nanoid_not_empty)
  have mint3: "\<not> str_truthy (cookie_session_id req) \<longrightarrow>
      (\<exists>c. fst (session_middleware_v3 e req) = [c] \<and> c_name c = ''session_id'' \<and>
           c_value c \<noteq> [] \<and> c_maxAge c = None)"
    by (simp add: session_middleware_v3_def)
  have keep: "str_truthy (cookie_session_id req) \<longrightarrow>
      fst (session_middleware e req) = [] \<and> fst (session_middleware_v3 e req) = []"
    by (simp add: session_middleware_def session_middleware_v3_def)
  have pres: "str_truthy (cookie_session_id req) = (\<exists>t. cookie_session_id req = Some t \<and> t \<noteq> [])"
    by (simp add: str_truthy_def split: option.splits)
  have pass: "serve route e req d =
     ((fst (session_middleware e req), fst (route e (snd (session_middleware e req)) req d)),
      snd (route e (snd (session_middleware e req)) req d))"
    by (simp add: serve_def split: prod.splits)
  from mint mint3 keep pres pass show ?thesis by blast
qed

text \<open>A first visit gets the cookie, and the request that presents the token \<open>tok\<close>
  gets none.\<close>

theorem session_cookie_only_when_missing_witness:
  "\<not> str_truthy (cookie_session_id req_first_visit) \<and>
   (\<exists>c. fst (session_middleware env_ok req_first_visit) = [c] \<and> c_name c = ''session_id'' \<and>
        c_value c = nanoid env_ok 0 21 \<and> length (c_value c) = 21 \<and> c_value c \<noteq> [] \<and>
        c_maxAge c = Some (10 * day_ms)) \<and>
   str_truthy (cookie_session_id req_two_events) \<and>
   fst (session_middleware env_ok req_two_events) = []"
proof -
  have a: "\<not> str_truthy (cookie_session_id req_first_visit)"
    by (simp add: req_first_visit_def str_truthy_def)
  have b: "str_truthy (cookie_session_id req_two_events)"
    by (simp add: req_two_events_def str_truthy_def)
  note first = session_cookie_only_when_missing [of req_first_visit env_ok post_api_events db_empty]
  note again = session_cookie_only_when_missing [of req_two_events env_ok post_api_events db_empty]
  from first [THEN conjunct1] a have c: "\<exists>c. fst (session_middleware env_ok req_first_visit) = [c] \<and>
        c_name c = ''session_id'' \<and> c_value c = nanoid env_ok 0 21 \<and> length (c_value c) = 21 \<and>
        c_value c \<noteq> [] \<and> c_maxAge c = Some (10 * day_ms)"
    by blast
  from again [THEN conjunct2, THEN conjunct1] b
  have d: "fst (session_middleware env_ok req_two_events) = []"
    by blast
  from a b c d show ?thesis by (intro conjI)
qed

section \<open>The rows a batch writes\<close>

lemma make_event_sel [simp]:
  "e_ts (make_event e req k f) = now e"
  "e_session_id (make_event e req k f) = cookie_session_id req"
  "e_ip (make_event e req k f) = client_ip req"
  "(e_page (make_event e req k f), e_type (make_event e req k f), e_payload (make_event e req k f)) = f"
  by (simp_all add: make_event_def split: prod.splits)

text \<open>What a transaction that commits has written: one row per item, in the order of the
  batch, each with the fields read from its item, the clock of the request and the
  cookie of the request.\<close>

lemma insertMany_written:
  "insertMany rd e req k w items d = Inr d' \<Longrightarrow>
     \<exists>rows. events d' = events d @ rows \<and> results d' = results d \<and>
       map (\<lambda>r. Inr (e_page r, e_type r, e_payload r)) rows = map rd items \<and>
       (\<forall>r\<in>set rows. e_ts r = now e \<and> e_session_id r = cookie_session_id req)"
proof (induction items arbitrary: k w d)
  case Nil
  then show ?case by simp
next
  case (Cons it arr)
  from Cons.prems obtain f d1 where
    f: "rd it = Inr f" and
    r: "stInsertEvent_run e w d (make_event e req k f) = Inr d1" and
    rest: "insertMany rd e req (Suc k) (Suc w) arr d1 = Inr d'"
    by (auto split: sum.splits)
  from r have d1: "events d1 = events d @ [make_event e req k f]" "results d1 = results d"
    by (auto simp: stInsertEvent_run_def split: if_splits)
  from Cons.IH [OF rest] obtain rows where
    rows: "events d' = events d1 @ rows" "results d' = results d1"
      "map (\<lambda>r. Inr (e_page r, e_type r, e_payload r)) rows = map rd arr"
      "\<forall>r\<in>set rows. e_ts r = now e \<and> e_session_id r = cookie_session_id req"
    by blast
  let ?rows = "make_event e req k f # rows"
  have "events d' = events d @ ?rows" using d1(1) rows(1) by simp
  moreover have "results d' = results d" using d1(2) rows(2) by simp
  moreover have "map (\<lambda>r. Inr (e_page r, e_type r, e_payload r)) ?rows = map rd (it # arr)"
    using f rows(3) by simp
  moreover have "\<forall>r\<in>set ?rows. e_ts r = now e \<and> e_session_id r = cookie_session_id req"
    using rows(4) by simp
  ultimately show ?case by blast
qed

lemma insert_v3_written:
  "insert_v3 e req k w evs tbl = Inr tbl' \<Longrightarrow>
     \<exists>rows. tbl' = tbl @ rows \<and> map v3_ts rows = map (ts_or_now e) evs"
proof (induction evs arbitrary: k w tbl)
  case Nil
  then show ?case by simp
next
  case (Cons ev evs)
  from Cons.prems obtain row t1 where
    m: "make_event_v3 e req k ev = Inr row" and
    r: "stInsertEvent_run_v3 e w tbl row = Inr t1" and
    rest: "insert_v3 e req (Suc k) (Suc w) evs t1 = Inr tbl'"
    by (auto split: sum.splits)
  from m have ts: "v3_ts row = ts_or_now e ev"
    by (auto simp: make_event_v3_def split: if_splits)
  from r have t1: "t1 = tbl @ [row]"
    by (auto simp: stInsertEvent_run_v3_def split: if_splits)
  from Cons.IH [OF rest] obtain rows where
    "tbl' = t1 @ rows" "map v3_ts rows = map (ts_or_now e) evs"
    by blast
  with t1 ts have "tbl' = tbl @ (row # rows) \<and> map v3_ts (row # rows) = map (ts_or_now e) (ev # evs)"
    by simp
  then show ?case by blast
qed

lemma render_insert_loop_written:
  "render_insert_loop e req k w items d = (x, d') \<Longrightarrow>
     \<exists>rows. events d' = events d @ rows \<and> results d' = results d \<and>
       (\<forall>r\<in>set rows. e_ts r = now e \<and> e_session_id r = cookie_session_id req \<and>
          (\<exists>it\<in>set items. event_fields it = Inr (e_page r, e_type r, e_payload r)))"
proof (induction items arbitrary: k w d)
  case Nil
  then show ?case by simp
next
  case (Cons it arr)
  show ?case
  proof (cases "event_fields it")
    case (Inl y)
    with Cons.prems show ?thesis by simp
  next
    case f: (Inr f)
    obtain err d1 where ins: "supabase_insert e w d (make_event e req k f) = (err, d1)"
      by (cases "supabase_insert e w d (make_event e req k f)")
    with f Cons.prems
    have rest: "render_insert_loop e req (Suc k) (Suc w) arr d1 = (x, d')" by simp
    from ins obtain new where
      d1: "events d1 = events d @ new" "results d1 = results d"
        "new = [] \<or> new = [make_event e req k f]"
      by (auto simp: supabase_insert_def split: if_splits)
    from Cons.IH [OF rest] obtain rows where
      rows: "events d' = events d1 @ rows" "results d' = results d1"
        "\<forall>r\<in>set rows. e_ts r = now e \<and> e_session_id r = cookie_session_id req \<and>
           (\<exists>it\<in>set arr. event_fields it = Inr (e_page r, e_type r, e_payload r))"
      by blast
    have "events d' = events d @ (new @ rows)" using d1(1) rows(1) by simp
    moreover have "results d' = results d" using d1(2) rows(2) by simp
    moreover have "\<forall>r\<in>set (new @ rows). e_ts r = now e \<and> e_session_id r = cookie_session_id req \<and>
           (\<exists>it\<in>set (it # arr). event_fields it = Inr (e_page r, e_type r, e_payload r))"
      using f rows(3) d1(3) by auto
    ultimately show ?thesis by blast
  qed
qed

text \<open>
  Claim C5, as stated: every persisted item of a batch carries the one timestamp the
  server took at ingestion, and a timestamp inside an item is never stored. It fails for
  the handler of server.js, lines 725-752, which stores \<open>e.ts || now\<close>: the item's own
  timestamp is the one persisted.
\<close>

theorem client_timestamp_counterexample:
  "fst (post_api_events_v3 env_ok 0 req_client_ts []) = Ok 1 \<and>
   map v3_ts (snd (post_api_events_v3 env_ok 0 req_client_ts [])) =
     [Bound (JStr ''1999-01-01T00:00:00.000Z'')] \<and>
   IsoText (now env_ok) \<noteq> Bound (JStr ''1999-01-01T00:00:00.000Z'')"
  by code_simp

text \<open>
  Claim C5, amended: every row that POST /api/events of server.js (lines 187-221, and
  the variant of lines 582-608) and of server-render.js persists carries the one
  timestamp the server took for the request, whatever the items hold. The handler of
  server.js, lines 725-752, stores for each item \<open>e.ts || now\<close>: the item's own \<open>ts\<close>
  when it has one, and the server's timestamp otherwise.
\<close>

theorem events_stamped_by_server:
  "(\<exists>rows. events (snd (post_api_events e k req d)) = events d @ rows \<and>
          (\<forall>r\<in>set rows. e_ts r = now e)) \<and>
   (\<exists>rows. events (snd (post_api_events_v2 e k req d)) = events d @ rows \<and>
          (\<forall>r\<in>set rows. e_ts r = now e)) \<and>
   (\<exists>rows. events (snd (post_api_events_render e k req d)) = events d @ rows \<and>
          (\<forall>r\<in>set rows. e_ts r = now e)) \<and>
   (\<forall>n. fst (post_api_events_v3 e k req tbl) = Ok n \<longrightarrow>
      (\<exists>evs rows. batch_v3 req = Inr evs \<and>
          snd (post_api_events_v3 e k req tbl) = tbl @ rows \<and>
          map v3_ts rows = map (ts_or_now e) evs))"
proof -
  have v1: "\<exists>rows. events (snd (post_api_events e k req d)) = events d @ rows \<and>
          (\<forall>r\<in>set rows. e_ts r = now e)"
  proof (cases "insertMany event_fields e req k 0 (batch_items req) d")
    case (Inl x)
    then have "snd (post_api_events e k req d) = d"
      by (simp add: post_api_events_def transaction_def)
    then show ?thesis by simp
  next
    case (Inr d')
    then have "snd (post_api_events e k req d) = d'"
      by (simp add: post_api_events_def transaction_def)
    with insertMany_written [OF Inr] show ?thesis by auto
  qed
  have v2: "\<exists>rows. events (snd (post_api_events_v2 e k req d)) = events d @ rows \<and>
          (\<forall>r\<in>set rows. e_ts r = now e)"
  proof (cases "insertMany event_fields_v2 e req k 0 (batch_items req) d")
    case (Inl x)
    then have "snd (post_api_events_v2 e k req d) = d"
      by (simp add: post_api_events_v2_def transaction_def)
    then show ?thesis by simp
  next
    case (Inr d')
    then have "snd (post_api_events_v2 e k req d) = d'"
      by (simp add: post_api_events_v2_def transaction_def)
    with insertMany_written [OF Inr] show ?thesis by auto
  qed
  have v4: "\<exists>rows. events (snd (post_api_events_render e k req d)) = events d @ rows \<and>
          (\<forall>r\<in>set rows. e_ts r = now e)"
  proof -
    obtain x d' where l: "render_insert_loop e req k 0 (batch_items req) d = (x, d')"
      by (cases "render_insert_loop e req k 0 (batch_items req) d")
    then have "snd (post_api_events_render e k req d) = d'"
      by (simp add: post_api_events_render_def split: option.splits)
    with render_insert_loop_written [OF l] show ?thesis by auto
  qed
  have v3: "\<forall>n. fst (post_api_events_v3 e k req tbl) = Ok n \<longrightarrow>
      (\<exists>evs rows. batch_v3 req = Inr evs \<and>
          snd (post_api_events_v3 e k req tbl) = tbl @ rows \<and>
          map v3_ts rows = map (ts_or_now e) evs)"
  proof (intro allI impI)
    fix n
    assume ok: "fst (post_api_events_v3 e k req tbl) = Ok n"
    then obtain evs where evs: "batch_v3 req = Inr evs"
      by (cases "batch_v3 req") (auto simp: post_api_events_v3_def)
    with ok obtain tbl' where ins: "insert_v3 e req k 0 evs tbl = Inr tbl'"
      by (cases "insert_v3 e req k 0 evs tbl") (auto simp: post_api_events_v3_def)
    with evs have "snd (post_api_events_v3 e k req tbl) = tbl'"
      by (simp add: post_api_events_v3_def)
    with insert_v3_written [OF ins] evs
    show "\<exists>evs rows. batch_v3 req = Inr evs \<and>
          snd (post_api_events_v3 e k req tbl) = tbl @ rows \<and>
          map v3_ts rows = map (ts_or_now e) evs"
      by auto
  qed
  from v1 v2 v4 v3 show ?thesis by blast
qed

text \<open>The batch whose event carries a timestamp of its own is stored by server.js with
  the server's.\<close>

theorem events_stamped_by_server_witness:
  "\<exists>rows. events (snd (post_api_events env_ok 0 req_client_ts db_empty)) = events db_empty @ rows \<and>
      length rows = 1 \<and> list_all (\<lambda>r. e_ts r = now env_ok) rows"
proof -
  from events_stamped_by_server [of env_ok 0 req_client_ts db_empty "[]"]
  obtain rows where
    rows: "events (snd (post_api_events env_ok 0 req_client_ts db_empty)) = events db_empty @ rows"
      "\<forall>r\<in>set rows. e_ts r = now env_ok"
    by blast
  have "length (events (snd (post_api_events env_ok 0 req_client_ts db_empty))) = 1"
    by code_simp
  with rows(1) have "length rows = 1" by (simp add: db_empty_def)
  with rows show ?thesis by (auto simp: list_all_iff)
qed

section \<open>The fields of an item\<close>

text \<open>The chain of \<open>||\<close> of the handler is the resolution of the spec.\<close>

lemma or_else_resolve1: "or_else a d = resolve [a] d"
  by (cases a) (auto simp: resolve_def)

lemma or_else_resolve2: "or_else (js_or a b) d = resolve [a, b] d"
  by (cases a; cases b) (auto simp: resolve_def js_or_def)

lemma resolve_js_or: "resolve (js_or a b # places) d = resolve (a # b # places) d"
  by (cases a; cases b) (auto simp: resolve_def js_or_def)

lemma event_fields_spec: "it \<noteq> JNull \<Longrightarrow> event_fields it = Inr (spec_event_fields it)"
  by (simp add: event_fields_def spec_event_fields_def Let_def
      or_else_resolve2 resolve_js_or)

lemma event_fields_null: "event_fields JNull = Inl TypeError"
  by (simp add: event_fields_def)

lemma event_fields_Inr: "event_fields it = Inr f \<Longrightarrow> f = spec_event_fields it"
  by (cases "it = JNull") (simp_all add: event_fields_null event_fields_spec)

lemma event_fields_v2_spec:
  "it \<noteq> JNull \<Longrightarrow>
     event_fields_v2 it =
       Inr (js_String (resolve [js_get it ''page''] (JStr [])),
            js_String (resolve [js_get it ''type''] (JStr ''custom'')),
            resolve [js_get it ''payload''] (JObj []))"
  by (simp add: event_fields_v2_def or_else_resolve1)

lemma map_fields_spec:
  "map (\<lambda>r. Inr (e_page r, e_type r, e_payload r)) rows = map event_fields items \<Longrightarrow>
     map (\<lambda>r. (e_page r, e_type r, e_payload r)) rows = map spec_event_fields items"
proof (induction rows arbitrary: items)
  case Nil
  then show ?case by simp
next
  case (Cons r rows)
  then obtain it arr where items: "items = it # arr" by (cases items) auto
  with Cons.prems have "event_fields it = Inr (e_page r, e_type r, e_payload r)"
    and rest: "map (\<lambda>r. Inr (e_page r, e_type r, e_payload r)) rows = map event_fields arr"
    by simp_all
  then have "(e_page r, e_type r, e_payload r) = spec_event_fields it"
    using event_fields_Inr by blast
  with Cons.IH [OF rest] items show ?case by simp
qed

text \<open>
  Claim C6, as stated: the stored page, type and payload of every ingested item are
  resolved from the explicit field or its aliases (\<open>properties.page\<close>; \<open>event\<close>,
  \<open>properties.event\<close>; \<open>properties\<close>), with the defaults. It fails for the handler of
  server.js, lines 582-608, which reads no alias: the two events of the batch, sent as
  \<open>event\<close>, are stored with the type \<open>custom\<close>.
\<close>

theorem alias_fields_counterexample:
  "map (\<lambda>it. js_get it ''event'') (batch_items req_two_events) =
     [Some (JStr ''page_view''), Some (JStr ''option_select'')] \<and>
   fst (post_api_events_v2 env_ok 0 req_two_events db_empty) = Ok 2 \<and>
   map e_type (events (snd (post_api_events_v2 env_ok 0 req_two_events db_empty))) =
     [''custom'', ''custom'']"
  by code_simp

text \<open>
  Claim C6, amended: for every item that POST /api/events of server.js (lines 187-221)
  and of server-render.js persists, the stored page is the first of \<open>page\<close> and
  \<open>properties.page\<close> that holds a truthy value, else the empty string; the stored type
  the first of \<open>type\<close>, \<open>event\<close> and \<open>properties.event\<close>, else \<open>custom\<close>; the stored
  payload the first of \<open>payload\<close> and \<open>properties\<close>, else the empty mapping. The
  variant of server.js, lines 582-608, resolves them from \<open>page\<close>, \<open>type\<close> and
  \<open>payload\<close> alone, with the same defaults.
\<close>

theorem event_fields_resolved:
  "(\<forall>n. fst (post_api_events e k req d) = Ok n \<longrightarrow>
      (\<exists>rows. events (snd (post_api_events e k req d)) = events d @ rows \<and>
         map (\<lambda>r. (e_page r, e_type r, e_payload r)) rows =
           map spec_event_fields (batch_items req))) \<and>
   (\<exists>rows. events (snd (post_api_events_render e k req d)) = events d @ rows \<and>
      (\<forall>r\<in>set rows. \<exists>it\<in>set (batch_items req).
          (e_page r, e_type r, e_payload r) = spec_event_fields it)) \<and>
   (\<forall>it. it \<noteq> JNull \<longrightarrow>
      event_fields_v2 it =
        Inr (js_String (resolve [js_get it ''page''] (JStr [])),
             js_String (resolve [js_get it ''type''] (JStr ''custom'')),
             resolve [js_get it ''payload''] (JObj [])))"
proof -
  have v1: "\<forall>n. fst (post_api_events e k req d) = Ok n \<longrightarrow>
      (\<exists>rows. events (snd (post_api_events e k req d)) = events d @ rows \<and>
         map (\<lambda>r. (e_page r, e_type r, e_payload r)) rows =
           map spec_event_fields (batch_items req))"
  proof (intro allI impI)
    fix n
    assume ok: "fst (post_api_events e k req d) = Ok n"
    then obtain d' where ins: "insertMany event_fields e req k 0 (batch_items req) d = Inr d'"
      by (cases "insertMany event_fields e req k 0 (batch_items req) d")
        (auto simp: post_api_events_def transaction_def)
    then have "snd (post_api_events e k req d) = d'"
      by (simp add: post_api_events_def transaction_def)
    with insertMany_written [OF ins] map_fields_spec
    show "\<exists>rows. events (snd (post_api_events e k req d)) = events d @ rows \<and>
         map (\<lambda>r. (e_page r, e_type r, e_payload r)) rows =
           map spec_event_fields (batch_items req)"
      by blast
  qed
  have v4: "\<exists>rows. events (snd (post_api_events_render e k req d)) = events d @ rows \<and>
      (\<forall>r\<in>set rows. \<exists>it\<in>set (batch_items req).
          (e_page r, e_type r, e_payload r) = spec_event_fields it)"
  proof -
    obtain x d' where l: "render_insert_loop e req k 0 (batch_items req) d = (x, d')"
      by (cases "render_insert_loop e req k 0 (batch_items req) d")
    then have "snd (post_api_events_render e k req d) = d'"
      by (simp add: post_api_events_render_def split: option.splits)
    with render_insert_loop_written [OF l] event_fields_Inr show ?thesis
      by (metis (no_types, lifting))
  qed
  from v1 v4 event_fields_v2_spec show ?thesis by blast
qed

text \<open>The event whose page and type are inside \<open>properties\<close> is stored with them.\<close>

theorem event_fields_resolved_witness:
  "fst (post_api_events env_ok 0 req_embedded db_empty) = Ok 1 \<and>
   (\<exists>rows. events (snd (post_api_events env_ok 0 req_embedded db_empty)) = events db_empty @ rows \<and>
      map (\<lambda>r. (e_page r, e_type r, e_payload r)) rows = map spec_event_fields (batch_items req_embedded)) \<and>
   map spec_event_fields (batch_items req_embedded) =
     [(''/result'', ''quiz_complete'',
       JObj [(''page'', JStr ''/result''), (''event'', JStr ''quiz_complete'')])]"
proof -
  have ok: "fst (post_api_events env_ok 0 req_embedded db_empty) = Ok 1"
    by code_simp
  have sp: "map spec_event_fields (batch_items req_embedded) =
     [(''/result'', ''quiz_complete'',
       JObj [(''page'', JStr ''/result''), (''event'', JStr ''quiz_complete'')])]"
    by code_simp
  from event_fields_resolved [of env_ok 0 req_embedded db_empty, THEN conjunct1] ok
  have "\<exists>rows. events (snd (post_api_events env_ok 0 req_embedded db_empty)) = events db_empty @ rows \<and>
      map (\<lambda>r. (e_page r, e_type r, e_payload r)) rows = map spec_event_fields (batch_items req_embedded)"
    by blast
  with ok sp show ?thesis by blast
qed

section \<open>The real-time window\<close>

lemma set_non_null: "set (non_null xs) = {v. Some v \<in> set xs}"
  by (induction xs) (auto simp: non_null_def split: option.splits)

lemma count_distinct_card: "count_distinct xs = card {v. Some v \<in> set xs}"
  by (simp add: count_distinct_def length_remdups_card_conv set_non_null)

lemma count_distinct_sessions:
  "count_distinct (map e_session_id (filter P rows)) =
     card {s. \<exists>r\<in>set rows. P r \<and> e_session_id r = Some s}"
proof -
  have "{v. Some v \<in> set (map e_session_id (filter P rows))} =
      {s. \<exists>r\<in>set rows. P r \<and> e_session_id r = Some s}"
    by (auto simp: image_iff)
  then show ?thesis by (simp only: count_distinct_card)
qed






section \<open>The dashboard\<close>

lemma group_count_empty [simp]: "(group_count ks = []) = (ks = [])"
  by (simp add: group_count_def)

lemma order_count_desc_empty [simp]: "(order_count_desc gs = []) = (gs = [])"
  by (metis length_0_conv length_sort order_count_desc_def)

lemma tally_empty [simp]: "tally [] = []"
  by (simp add: tally_def)

text \<open>
  Claim C8: an aggregation of the dashboard over zero matching rows is the empty list,
  never null and never an error; with no rows in the results table, GET /api/dashboard
  answers with \<open>quizResults: []\<close>. The handler of server.js answers \<open>Ok\<close>, and each of its
  four grouped lists is empty exactly when no row matches its query; the handler of
  server-render.js answers \<open>Ok\<close> with empty lists over empty tables.
\<close>

theorem empty_aggregation_is_empty_list:
  "(\<exists>b. get_api_dashboard e d = Ok b \<and>
      (quizResults b = []) = (results d = []) \<and>
      (topEvents b = []) = (events d = []) \<and>
      (pageViews b = []) = (filter (\<lambda>r. e_type r = ''page_view'') (events d) = []) \<and>
      (hourlyEvents b = []) = (filter (\<lambda>r. startOf_day e (now e) \<le> e_ts r) (events d) = [])) \<and>
   (\<exists>b. get_api_dashboard_render e d = Ok b \<and>
      (results d = [] \<longrightarrow> quizResults b = []) \<and>
      (events d = [] \<longrightarrow> topEvents b = []))"
proof -
  have sk: "(sort_key f xs = []) = (xs = [])" for f :: "nat \<times> nat \<Rightarrow> nat" and xs
    by (metis length_0_conv length_sort)
  have v1: "\<exists>b. get_api_dashboard e d = Ok b \<and>
      (quizResults b = []) = (results d = []) \<and>
      (topEvents b = []) = (events d = []) \<and>
      (pageViews b = []) = (filter (\<lambda>r. e_type r = ''page_view'') (events d) = []) \<and>
      (hourlyEvents b = []) = (filter (\<lambda>r. startOf_day e (now e) \<le> e_ts r) (events d) = [])"
    by (simp add: get_api_dashboard_def Let_def sk)
  have v4: "\<exists>b. get_api_dashboard_render e d = Ok b \<and>
      (results d = [] \<longrightarrow> quizResults b = []) \<and>
      (events d = [] \<longrightarrow> topEvents b = [])"
    by (simp add: get_api_dashboard_render_def Let_def non_null_def)
  from v1 v4 show ?thesis by blast
qed

text \<open>Over the empty tables every grouped list of either handler is empty.\<close>

theorem empty_aggregation_is_empty_list_witness:
  "results db_empty = [] \<and> events db_empty = [] \<and>
   (\<exists>b. get_api_dashboard env_ok db_empty = Ok b \<and> quizResults b = [] \<and> topEvents b = [] \<and>
        pageViews b = [] \<and> hourlyEvents b = []) \<and>
   (\<exists>b. get_api_dashboard_render env_ok db_empty = Ok b \<and> quizResults b = [] \<and> topEvents b = [])"
proof -
  have r: "results db_empty = []" and e: "events db_empty = []"
    by (simp_all add: db_empty_def)
  from empty_aggregation_is_empty_list [of env_ok db_empty, THEN conjunct1]
  have a: "\<exists>b. get_api_dashboard env_ok db_empty = Ok b \<and> quizResults b = [] \<and> topEvents b = [] \<and>
        pageViews b = [] \<and> hourlyEvents b = []"
    unfolding r e by simp
  from empty_aggregation_is_empty_list [of env_ok db_empty, THEN conjunct2]
  have b: "\<exists>b. get_api_dashboard_render env_ok db_empty = Ok b \<and> quizResults b = [] \<and> topEvents b = []"
    unfolding r e by simp
  from r e a b show ?thesis by blast
qed

section \<open>The session of the rows a request writes\<close>

lemma post_api_events_sessions:
  "\<exists>rows. events (snd (post_api_events e k req d)) = events d @ rows \<and>
      (\<forall>r\<in>set rows. e_session_id r = cookie_session_id req)"
proof (cases "insertMany event_fields e req k 0 (batch_items req) d")
  case (Inl x)
  then have "snd (post_api_events e k req d) = d"
    by (simp add: post_api_events_def transaction_def)
  then show ?thesis by simp
next
  case (Inr d')
  then have "snd (post_api_events e k req d) = d'"
    by (simp add: post_api_events_def transaction_def)
  with insertMany_written [OF Inr] show ?thesis by auto
qed

lemma post_api_results_sessions:
  "\<exists>rows. results (snd (post_api_results e k req d)) = results d @ rows \<and>
      (\<forall>r\<in>set rows. r_session_id r = cookie_session_id req)"
  by (simp add: post_api_results_def stInsertResult_run_def Let_def)

lemma minted_is_not_the_cookie:
  "c \<in> set (fst (session_middleware e req)) \<Longrightarrow> cookie_session_id req \<noteq> Some (c_value c)"
proof -
  assume c: "c \<in> set (fst (session_middleware e req))"
  then have "\<not> str_truthy (cookie_session_id req)" and "c_value c = nanoid e 0 21"
    by (auto simp: session_middleware_def split: if_splits)
  moreover have "nanoid e 0 21 \<noteq> []" by (simp add: nanoid_not_empty)
  ultimately show ?thesis
    by (auto simp: str_truthy_def split: option.splits)
qed

lemma serve_parts:
  "fst (fst (serve route e req d)) = fst (session_middleware e req)"
  "snd (serve route e req d) = snd (route e (snd (session_middleware e req)) req d)"
  by (simp_all add: serve_def split: prod.splits)

text \<open>
  Claim C9: a session token that the middleware mints during a request is never the
  session_id of a row that the same request inserts. The cookie goes on the response
  only, and the inserts of POST /api/events and POST /api/results read the session from
  the cookies of the request: every row they write carries the cookie the request
  presented, no row carries the value of a cookie the response sets, and on a request
  without a cookie the response sets the minted token while the rows carry none.
\<close>

theorem minted_token_not_in_rows:
  "(\<exists>rows. events (snd (serve post_api_events e req d)) = events d @ rows \<and>
      (\<forall>r\<in>set rows. e_session_id r = cookie_session_id req \<and>
         (\<forall>c\<in>set (fst (fst (serve post_api_events e req d))). e_session_id r \<noteq> Some (c_value c)))) \<and>
   (\<exists>rows. results (snd (serve post_api_results e req d)) = results d @ rows \<and>
      (\<forall>r\<in>set rows. r_session_id r = cookie_session_id req \<and>
         (\<forall>c\<in>set (fst (fst (serve post_api_results e req d))). r_session_id r \<noteq> Some (c_value c)))) \<and>
   (cookie_session_id req = None \<longrightarrow>
      map c_value (fst (fst (serve post_api_events e req d))) = [nanoid e 0 21] \<and>
      map c_value (fst (fst (serve post_api_results e req d))) = [nanoid e 0 21])"
proof -
  let ?k = "snd (session_middleware e req)"
  from post_api_events_sessions [of e ?k req d] obtain rows where
    rows: "events (snd (post_api_events e ?k req d)) = events d @ rows"
      "\<forall>r\<in>set rows. e_session_id r = cookie_session_id req"
    by blast
  have ev: "\<exists>rows. events (snd (serve post_api_events e req d)) = events d @ rows \<and>
      (\<forall>r\<in>set rows. e_session_id r = cookie_session_id req \<and>
         (\<forall>c\<in>set (fst (fst (serve post_api_events e req d))). e_session_id r \<noteq> Some (c_value c)))"
    unfolding serve_parts using rows minted_is_not_the_cookie [of _ e req] by auto
  from post_api_results_sessions [of e ?k req d] obtain rrows where
    rrows: "results (snd (post_api_results e ?k req d)) = results d @ rrows"
      "\<forall>r\<in>set rrows. r_session_id r = cookie_session_id req"
    by blast
  have rs: "\<exists>rows. results (snd (serve post_api_results e req d)) = results d @ rows \<and>
      (\<forall>r\<in>set rows. r_session_id r = cookie_session_id req \<and>
         (\<forall>c\<in>set (fst (fst (serve post_api_results e req d))). r_session_id r \<noteq> Some (c_value c)))"
    unfolding serve_parts using rrows minted_is_not_the_cookie [of _ e req] by auto
  have mint: "cookie_session_id req = None \<longrightarrow>
      map c_value (fst (fst (serve post_api_events e req d))) = [nanoid e 0 21] \<and>
      map c_value (fst (fst (serve post_api_results e req d))) = [nanoid e 0 21]"
    unfolding serve_parts by (simp add: session_middleware_def str_truthy_def)
  from ev rs mint show ?thesis by blast
qed

text \<open>On a first visit the response sets the minted token, and the two events and the
  result that the request writes have no session.\<close>

theorem minted_token_not_in_rows_witness:
  "cookie_session_id req_first_visit = None \<and>
   map c_value (fst (fst (serve post_api_events env_ok req_first_visit db_empty))) =
     [nanoid env_ok 0 21] \<and>
   map e_session_id (events (snd (serve post_api_events env_ok req_first_visit db_empty))) =
     [None, None] \<and>
   map r_session_id (results (snd (serve post_api_results env_ok req_first_result db_empty))) =
     [None]"
proof -
  have c: "cookie_session_id req_first_visit = None"
    by (simp add: req_first_visit_def)
  from minted_token_not_in_rows [of env_ok req_first_visit db_empty, THEN conjunct2, THEN conjunct2] c
  have m: "map c_value (fst (fst (serve post_api_events env_ok req_first_visit db_empty))) =
     [nanoid env_ok 0 21]"
    by blast
  have s: "map e_session_id
      (events (snd (serve post_api_events env_ok req_first_visit db_empty))) = [None, None]"
    by code_simp
  have r: "map r_session_id (results (snd (serve post_api_results env_ok req_first_result db_empty))) =
     [None]"
    by code_simp
  from c m s r show ?thesis by blast
qed

section \<open>Users and sessions of the dashboard\<close>

lemma count_distinct_all_sessions:
  "count_distinct (map e_session_id rows) = card {s. \<exists>r\<in>set rows. e_session_id r = Some s}"
  using count_distinct_sessions [of "\<lambda>r. True" rows] by simp

text \<open>
  Claim C10: in every response of GET /api/dashboard, totalUsers equals totalSessions:
  both are the count of the distinct session_id values of the events table, for every
  state of the database. This holds for the handlers of server.js, of server-render.js
  and of src/unnamed/part_001.
\<close>

theorem total_users_is_total_sessions:
  "(\<exists>b. get_api_dashboard e d = Ok b \<and> totalUsers b = totalSessions b \<and>
        totalSessions b = card {s. \<exists>r\<in>set (events d). e_session_id r = Some s}) \<and>
   (\<exists>b. get_api_dashboard_render e d = Ok b \<and> totalUsers b = totalSessions b \<and>
        totalSessions b = card {s. \<exists>r\<in>set (events d). e_session_id r = Some s}) \<and>
   (\<exists>b. get_api_dashboard_tracker e d = Ok b \<and> totalUsers b = totalSessions b \<and>
        totalSessions b = card {s. \<exists>r\<in>set (events d). e_session_id r = Some s})"
proof -
  have u: "length (remdups (non_null (map e_session_id (events d)))) =
      card {s. \<exists>r\<in>set (events d). e_session_id r = Some s}"
    using count_distinct_all_sessions [of "events d"] by (simp add: count_distinct_def)
  have v1: "\<exists>b. get_api_dashboard e d = Ok b \<and> totalUsers b = totalSessions b \<and>
        totalSessions b = card {s. \<exists>r\<in>set (events d). e_session_id r = Some s}"
    by (simp add: get_api_dashboard_def Let_def count_distinct_all_sessions)
  have v4: "\<exists>b. get_api_dashboard_render e d = Ok b \<and> totalUsers b = totalSessions b \<and>
        totalSessions b = card {s. \<exists>r\<in>set (events d). e_session_id r = Some s}"
    by (simp add: get_api_dashboard_render_def Let_def u)
  have v5: "\<exists>b. get_api_dashboard_tracker e d = Ok b \<and> totalUsers b = totalSessions b \<and>
        totalSessions b = card {s. \<exists>r\<in>set (events d). e_session_id r = Some s}"
    by (simp add: get_api_dashboard_tracker_def Let_def count_distinct_all_sessions)
  from v1 v4 v5 show ?thesis by blast
qed

text \<open>Over the three events of one session both counts are 1.\<close>

theorem total_users_is_total_sessions_witness:
  "\<exists>b. get_api_dashboard env_later db_boundary = Ok b \<and> totalUsers b = 1 \<and> totalSessions b = 1"
proof -
  have s: "{s. \<exists>r\<in>set (events db_boundary). e_session_id r = Some s} = {''tok''}"
    by (auto simp: db_boundary_def row_at_def)
  from total_users_is_total_sessions [of env_later db_boundary, THEN conjunct1]
  show ?thesis unfolding s by auto
qed

end
